theory Spec2Isabelle
  imports Complex_Main "HOL-Library.FSet"
begin

section \<open>Chunk pruning rule: data model\<close>

text \<open>
  The development follows \<open>chunk_pruning_rule.cpp\<close>. Chunk and column identifiers are
  unsigned machine integers in the source; every loop over them runs up to the number of
  chunks or columns of a table, which the identifier types can hold, so no arithmetic on
  them wraps and they are natural numbers here. The same holds for the count of pruned
  rows, a sum of chunk sizes. A \<open>std::set<ChunkID>\<close> is a finite set of chunk identifiers.
\<close>

type_synonym ChunkID = nat
type_synonym ColumnID = nat
type_synonym ParameterID = nat

text \<open>The column data types that \<open>resolve_data_type\<close> dispatches over.\<close>

datatype DataType = TInt | TLong | TFloat | TDouble | TString

definition is_arithmetic :: "DataType \<Rightarrow> bool" where
  "is_arithmetic t = (t \<noteq> TString)"

datatype PredicateCondition =
    Equals | NotEquals | LessThan | LessThanEquals | GreaterThan | GreaterThanEquals
  | BetweenInclusive | BetweenLowerExclusive | BetweenUpperExclusive | BetweenExclusive
  | In | NotIn | Like | NotLike | IsNull | IsNotNull

text \<open>
  Scalar values. The rule never computes with them: it hands them to the lossless cast,
  to the filters and to the statistics objects.
\<close>

datatype AllTypeVariant =
    NullValue | Int32 int | Int64 int | Float32 real | Float64 real | Text string

datatype AllParameterVariant =
    Variant AllTypeVariant | Column ColumnID | Parameter ParameterID

fun is_variant :: "AllParameterVariant \<Rightarrow> bool" where
  "is_variant (Variant v) = True"
| "is_variant (Column c) = False"
| "is_variant (Parameter p) = False"

record OperatorScanPredicate =
  column_id :: ColumnID
  predicate_condition :: PredicateCondition
  value1 :: AllParameterVariant
  value2 :: "AllParameterVariant option"

text \<open>
  A range filter or a min-max filter is used through its single query
  \<open>does_not_contain(condition, value, value2)\<close>, so a filter object is that function.
\<close>

type_synonym Filter =
  "PredicateCondition \<Rightarrow> AllTypeVariant \<Rightarrow> AllTypeVariant option \<Rightarrow> bool"

record AttributeStatistics =
  data_type :: DataType
  range_filter :: "Filter option"
  min_max_filter :: "Filter option"

text \<open>
  A chunk: its number of rows and, when it has them, its pruning statistics, one segment
  statistics object per column (the source indexes that vector by the predicate's column
  without a bound check; the normaliser only produces columns of the table).
\<close>

record Chunk =
  chunk_size :: nat
  pruning_statistics :: "(ColumnID \<Rightarrow> AttributeStatistics) option"

text \<open>
  Table statistics: one statistics object per column and a row count. The statistics
  objects (type \<open>'st\<close>) and the floating-point row counts (type \<open>'c\<close>) stay abstract;
  their operations are fields of the environment below.
\<close>

record ('st, 'c) TableStatistics =
  column_statistics :: "'st list"
  row_count :: 'c

record ('st, 'c) Table =
  chunks :: "Chunk option list"
  base_table_statistics :: "('st, 'c) TableStatistics"
  column_data_types :: "ColumnID \<Rightarrow> DataType"

text \<open>
  Expressions: a column expression names the plan node it was defined on (a weak
  pointer, so possibly expired), a value expression holds a scalar, and every other
  expression has arguments (a predicate expression also its condition).
\<close>

datatype expression =
    LQPColumnExpression "nat option" ColumnID
  | ValueExpression AllTypeVariant
  | PredicateExpression PredicateCondition "expression list"
  | Expression "expression list"

text \<open>Modelled from the spec: the closed set of plan node kinds of section 3 (the
  enumeration \<open>LQPNodeType\<close> is declared outside the sources).\<close>

datatype LQPNodeType =
    Predicate | Validate | StoredTable | Join | Alias | Projection | Sort | Other

text \<open>
  A plan node as seen by the upward walk: its identity (the address the shared pointer
  holds), its kind, its predicate (read for predicate nodes only) and its consumers.
  A node with several paths to it appears once on each, under the same identity.
\<close>

datatype lqp_node =
  LQPNode (node_id: nat) (node_type: LQPNodeType) (node_predicate: expression)
    (outputs: "lqp_node list")

record StoredTableNode =
  stn_node :: lqp_node
  table_name :: string

text \<open>The two fields of a stored-table node that the rule writes.\<close>

record ('st, 'c) stored_table_fields =
  pruned_chunk_ids :: "ChunkID list"
  table_statistics :: "('st, 'c) TableStatistics option"

text \<open>
  The state the rule reads and writes: its member
  \<open>_excluded_chunk_ids_by_predicate_node\<close> (keyed by node identity), the writable fields
  of the stored-table nodes (by node identity), and a trace \<open>scanned\<close> that is not in the
  source: each time the normalized predicates of a predicate node are evaluated against
  the chunks, the node's identity is appended, so that "scanned once" can be stated.
\<close>

record ('st, 'c) rule_state =
  excluded_chunk_ids_by_predicate_node :: "nat \<rightharpoonup> ChunkID fset"
  stored_table_node_fields :: "nat \<Rightarrow> ('st, 'c) stored_table_fields"
  scanned :: "nat list"

text \<open>
  What the rule consumes from the rest of the system: the storage manager's lookup, the
  scan-predicate normaliser, the lossless cast, the two transformations of a column
  statistics object and the floating-point operations of
  \<open>_prune_table_statistics\<close> (conversion from an unsigned integer, subtraction, division).
\<close>

record ('st, 'c) environment =
  get_table :: "string \<Rightarrow> ('st, 'c) Table"
  from_expression :: "expression \<Rightarrow> OperatorScanPredicate list option"
  lossless_variant_cast :: "AllTypeVariant \<Rightarrow> DataType \<Rightarrow> AllTypeVariant option"
  scaled :: "'st \<Rightarrow> 'c \<Rightarrow> 'st"
  pruned :: "'st \<Rightarrow> nat \<Rightarrow> PredicateCondition \<Rightarrow> AllTypeVariant \<Rightarrow> AllTypeVariant option \<Rightarrow> 'st"
  float_of_nat :: "nat \<Rightarrow> 'c"
  float_minus :: "'c \<Rightarrow> 'c \<Rightarrow> 'c"
  float_divide :: "'c \<Rightarrow> 'c \<Rightarrow> 'c"

datatype build = Debug | Production

datatype error = Abort string | FatalError string | bad_get

text \<open>Modelled from the spec: the macro \<open>DebugAssert\<close> of \<open>utils/assert.hpp\<close>, which is
  not among the sources. Section 7 describes its failure as a fatal assertion that aborts
  loudly in a debug build and degrades to a fatal error in a production build.\<close>

definition DebugAssert :: "build \<Rightarrow> bool \<Rightarrow> string \<Rightarrow> error + unit" where
  "DebugAssert b expr msg =
     (if expr then Inr ()
      else Inl (case b of Debug \<Rightarrow> Abort msg | Production \<Rightarrow> FatalError msg))"

section \<open>Intersection of the chains' exclusion sets\<close>

fun intersect_loop :: "ChunkID fset \<Rightarrow> ChunkID fset list \<Rightarrow> ChunkID fset" where
  "intersect_loop chunk_id_set [] = chunk_id_set"
| "intersect_loop chunk_id_set (current_chunk_id_set # rest) =
     (if current_chunk_id_set = {||} then {||}
      else intersect_loop (chunk_id_set |\<inter>| current_chunk_id_set) rest)"

definition intersect_chunk_ids :: "ChunkID fset list \<Rightarrow> ChunkID fset" where
  "intersect_chunk_ids chunk_id_sets =
     (case chunk_id_sets of
        [] \<Rightarrow> {||}
      | first # rest \<Rightarrow>
          if first = {||} then {||}
          else if rest = [] then first
          else intersect_loop first rest)"

section \<open>Deciding whether one chunk can be pruned\<close>

definition can_prune ::
  "build \<Rightarrow> AttributeStatistics \<Rightarrow> PredicateCondition \<Rightarrow> AllTypeVariant \<Rightarrow>
   AllTypeVariant option \<Rightarrow> error + bool" where
  "can_prune b segment_statistics condition variant_value variant_value2 =
     (let by_min_max =
            (case min_max_filter segment_statistics of
               None \<Rightarrow> False
             | Some f \<Rightarrow> f condition variant_value variant_value2)
      in if is_arithmetic (data_type segment_statistics) then
           (let by_range =
                  (case range_filter segment_statistics of
                     None \<Rightarrow> False
                   | Some f \<Rightarrow> f condition variant_value variant_value2)
            in case DebugAssert b (min_max_filter segment_statistics = None)
                      ''Segment should not have a MinMaxFilter and a RangeFilter at the same time'' of
                 Inl e \<Rightarrow> Inl e
               | Inr u \<Rightarrow> Inr (by_range \<or> by_min_max))
         else Inr by_min_max)"

section \<open>Correcting the table statistics\<close>

text \<open>
  The loop over the columns of \<open>_prune_table_statistics\<close>. \<open>boost::get\<close> on a value that
  is not a scalar throws; it is evaluated only when the loop reaches the predicate's
  column.
\<close>

fun prune_columns ::
  "('st, 'c) environment \<Rightarrow> OperatorScanPredicate \<Rightarrow> nat \<Rightarrow> 'c \<Rightarrow> 'st list \<Rightarrow>
   ColumnID \<Rightarrow> error + 'st list" where
  "prune_columns env predicate num_rows_pruned scale [] col = Inr []"
| "prune_columns env predicate num_rows_pruned scale (old # olds) col =
     (let this =
            (if col = column_id predicate then
               (case value1 predicate of
                  Variant v \<Rightarrow>
                    (case value2 predicate of
                       None \<Rightarrow>
                         Inr (pruned env old num_rows_pruned (predicate_condition predicate) v None)
                     | Some (Variant w) \<Rightarrow>
                         Inr (pruned env old num_rows_pruned (predicate_condition predicate) v
                                (Some w))
                     | Some other \<Rightarrow> Inl bad_get)
                | other \<Rightarrow> Inl bad_get)
             else Inr (scaled env old scale))
      in case this of
           Inl e \<Rightarrow> Inl e
         | Inr new \<Rightarrow>
             (case prune_columns env predicate num_rows_pruned scale olds (Suc col) of
                Inl e \<Rightarrow> Inl e
              | Inr news \<Rightarrow> Inr (new # news)))"

definition prune_table_statistics ::
  "('st, 'c) environment \<Rightarrow> ('st, 'c) TableStatistics \<Rightarrow> OperatorScanPredicate \<Rightarrow> nat \<Rightarrow>
   error + ('st, 'c) TableStatistics" where
  "prune_table_statistics env old_statistics predicate num_rows_pruned =
     (let scale = float_minus env (float_of_nat env 1)
                    (float_divide env (float_of_nat env num_rows_pruned)
                       (row_count old_statistics))
      in case prune_columns env predicate num_rows_pruned scale
                (column_statistics old_statistics) 0 of
           Inl e \<Rightarrow> Inl e
         | Inr cols \<Rightarrow>
             Inr \<lparr>column_statistics = cols,
                  row_count = float_minus env (row_count old_statistics)
                                (float_of_nat env num_rows_pruned)\<rparr>)"

section \<open>The exclusion set of one predicate chain\<close>

text \<open>
  The loop over the chunks of the table for one normalized predicate. A chunk that the
  stored-table node already lists as pruned adds no rows to \<open>num_rows_pruned\<close>.
\<close>

fun scan_chunks ::
  "build \<Rightarrow> ChunkID list \<Rightarrow> ColumnID \<Rightarrow> PredicateCondition \<Rightarrow> AllTypeVariant \<Rightarrow>
   AllTypeVariant option \<Rightarrow> Chunk option list \<Rightarrow> ChunkID \<Rightarrow> nat \<Rightarrow> ChunkID fset \<Rightarrow>
   error + (nat \<times> ChunkID fset)" where
  "scan_chunks b already col condition v v2 [] chunk_id num_rows_pruned local =
     Inr (num_rows_pruned, local)"
| "scan_chunks b already col condition v v2 (chunk # rest) chunk_id num_rows_pruned local =
     (case chunk of
        None \<Rightarrow> scan_chunks b already col condition v v2 rest (Suc chunk_id) num_rows_pruned local
      | Some c \<Rightarrow>
          (case pruning_statistics c of
             None \<Rightarrow>
               scan_chunks b already col condition v v2 rest (Suc chunk_id) num_rows_pruned local
           | Some statistics \<Rightarrow>
               (case can_prune b (statistics col) condition v v2 of
                  Inl e \<Rightarrow> Inl e
                | Inr prunable \<Rightarrow>
                    if prunable then
                      scan_chunks b already col condition v v2 rest (Suc chunk_id)
                        (if chunk_id \<in> set already then num_rows_pruned
                         else num_rows_pruned + chunk_size c)
                        (finsert chunk_id local)
                    else
                      scan_chunks b already col condition v v2 rest (Suc chunk_id)
                        num_rows_pruned local)))"

text \<open>The second value of a normalized predicate: \<open>None\<close> stands for \<open>continue\<close>.\<close>

definition cast_value2 ::
  "('st, 'c) environment \<Rightarrow> DataType \<Rightarrow> AllParameterVariant option \<Rightarrow>
   AllTypeVariant option option" where
  "cast_value2 env column_data_type v2 =
     (case v2 of
        None \<Rightarrow> Some None
      | Some (Variant w0) \<Rightarrow>
          (case lossless_variant_cast env w0 column_data_type of
             None \<Rightarrow> None
           | Some w \<Rightarrow> Some (Some w))
      | Some other \<Rightarrow> None)"

definition set_table_statistics ::
  "nat \<Rightarrow> ('st, 'c) TableStatistics \<Rightarrow> ('st, 'c) rule_state \<Rightarrow> ('st, 'c) rule_state" where
  "set_table_statistics stn new_statistics s =
     s\<lparr>stored_table_node_fields :=
         (stored_table_node_fields s)
           (stn := (stored_table_node_fields s stn)\<lparr>table_statistics := Some new_statistics\<rparr>)\<rparr>"

definition set_pruned_chunk_ids ::
  "nat \<Rightarrow> ChunkID list \<Rightarrow> ('st, 'c) rule_state \<Rightarrow> ('st, 'c) rule_state" where
  "set_pruned_chunk_ids stn ids s =
     s\<lparr>stored_table_node_fields :=
         (stored_table_node_fields s)
           (stn := (stored_table_node_fields s stn)\<lparr>pruned_chunk_ids := ids\<rparr>)\<rparr>"

text \<open>The body of the loop over the normalized predicates of one predicate node.\<close>

definition evaluate_operator_predicate ::
  "build \<Rightarrow> ('st, 'c) environment \<Rightarrow> ('st, 'c) Table \<Rightarrow> nat \<Rightarrow> OperatorScanPredicate \<Rightarrow>
   ChunkID fset \<Rightarrow> ('st, 'c) rule_state \<Rightarrow> error + (ChunkID fset \<times> ('st, 'c) rule_state)" where
  "evaluate_operator_predicate b env table stn operator_predicate local s =
     (case value1 operator_predicate of
        Variant v0 \<Rightarrow>
          (let column_data_type = column_data_types table (column_id operator_predicate)
           in case lossless_variant_cast env v0 column_data_type of
                None \<Rightarrow> Inr (local, s)
              | Some v \<Rightarrow>
                  (case cast_value2 env column_data_type (value2 operator_predicate) of
                     None \<Rightarrow> Inr (local, s)
                   | Some v2 \<Rightarrow>
                       (case scan_chunks b (pruned_chunk_ids (stored_table_node_fields s stn))
                               (column_id operator_predicate)
                               (predicate_condition operator_predicate) v v2 (chunks table)
                               0 0 local of
                          Inl e \<Rightarrow> Inl e
                        | Inr (num_rows_pruned, local') \<Rightarrow>
                            if num_rows_pruned > 0 then
                              (let old_statistics =
                                     (case table_statistics (stored_table_node_fields s stn) of
                                        Some t \<Rightarrow> t
                                      | None \<Rightarrow> base_table_statistics table)
                               in case prune_table_statistics env old_statistics
                                         operator_predicate num_rows_pruned of
                                    Inl e \<Rightarrow> Inl e
                                  | Inr pruned_statistics \<Rightarrow>
                                      Inr (local', set_table_statistics stn pruned_statistics s))
                            else Inr (local', s))))
      | other \<Rightarrow> Inr (local, s))"

fun evaluate_operator_predicates ::
  "build \<Rightarrow> ('st, 'c) environment \<Rightarrow> ('st, 'c) Table \<Rightarrow> nat \<Rightarrow> OperatorScanPredicate list \<Rightarrow>
   ChunkID fset \<Rightarrow> ('st, 'c) rule_state \<Rightarrow> error + (ChunkID fset \<times> ('st, 'c) rule_state)" where
  "evaluate_operator_predicates b env table stn [] local s = Inr (local, s)"
| "evaluate_operator_predicates b env table stn (operator_predicate # rest) local s =
     (case evaluate_operator_predicate b env table stn operator_predicate local s of
        Inl e \<Rightarrow> Inl e
      | Inr (local', s') \<Rightarrow> evaluate_operator_predicates b env table stn rest local' s')"

text \<open>\<open>std::unordered_map::emplace\<close>: nothing is stored under a key that is present.\<close>

definition emplace :: "('k \<rightharpoonup> 'v) \<Rightarrow> 'k \<Rightarrow> 'v \<Rightarrow> ('k \<rightharpoonup> 'v)" where
  "emplace m k v = (case m k of None \<Rightarrow> m(k \<mapsto> v) | Some old \<Rightarrow> m)"

text \<open>
  The loop over the predicate nodes of a chain. A memoized node is a shortcut; a node
  whose predicate the normaliser rejects ends the function with the empty set.
\<close>

fun compute_exclude_loop ::
  "build \<Rightarrow> ('st, 'c) environment \<Rightarrow> ('st, 'c) Table \<Rightarrow> nat \<Rightarrow> lqp_node list \<Rightarrow>
   ChunkID fset \<Rightarrow> ('st, 'c) rule_state \<Rightarrow> error + (ChunkID fset \<times> ('st, 'c) rule_state)" where
  "compute_exclude_loop b env table stn [] global s = Inr (global, s)"
| "compute_exclude_loop b env table stn (predicate_node # rest) global s =
     (case excluded_chunk_ids_by_predicate_node s (node_id predicate_node) of
        Some local \<Rightarrow> compute_exclude_loop b env table stn rest (global |\<union>| local) s
      | None \<Rightarrow>
          (case from_expression env (node_predicate predicate_node) of
             None \<Rightarrow> Inr ({||}, s)
           | Some operator_predicates \<Rightarrow>
               (case evaluate_operator_predicates b env table stn operator_predicates {||}
                       (s\<lparr>scanned := scanned s @ [node_id predicate_node]\<rparr>) of
                  Inl e \<Rightarrow> Inl e
                | Inr (local, s') \<Rightarrow>
                    compute_exclude_loop b env table stn rest (global |\<union>| local)
                      (s'\<lparr>excluded_chunk_ids_by_predicate_node :=
                            emplace (excluded_chunk_ids_by_predicate_node s')
                              (node_id predicate_node) local\<rparr>))))"

definition compute_exclude_list ::
  "build \<Rightarrow> ('st, 'c) environment \<Rightarrow> ('st, 'c) Table \<Rightarrow> lqp_node list \<Rightarrow> nat \<Rightarrow>
   ('st, 'c) rule_state \<Rightarrow> error + (ChunkID fset \<times> ('st, 'c) rule_state)" where
  "compute_exclude_list b env table predicate_chain stn s =
     compute_exclude_loop b env table stn predicate_chain {||} s"

section \<open>Finding the predicate chains above a stored-table node\<close>

text \<open>
  The visitor handed to \<open>visit_expression\<close> clears \<open>predicate_matches_table\<close> at every
  column expression whose original node is not the stored-table node and does not
  descend below a column expression.
\<close>

fun predicate_matches_table :: "nat \<Rightarrow> expression \<Rightarrow> bool" where
  "predicate_matches_table stored_table_node (LQPColumnExpression original_node col) =
     (original_node = Some stored_table_node)"
| "predicate_matches_table stored_table_node (ValueExpression v) = True"
| "predicate_matches_table stored_table_node (PredicateExpression condition arguments) =
     list_all (predicate_matches_table stored_table_node) arguments"
| "predicate_matches_table stored_table_node (Expression arguments) =
     list_all (predicate_matches_table stored_table_node) arguments"

definition is_non_filtering_node :: "LQPNodeType \<Rightarrow> bool" where
  "is_non_filtering_node t = (t = Alias \<or> t = Projection \<or> t = Sort)"

definition continues_chain :: "LQPNodeType \<Rightarrow> bool" where
  "continues_chain t =
     (t = Predicate \<or> t = Validate \<or> t = StoredTable \<or> t = Join \<or> is_non_filtering_node t)"

lemma size_outputs: "size_list size (outputs n) < size n"
  by (cases n) simp

lemma size_output: "x \<in> set (outputs n) \<Longrightarrow> size x < size n"
  using size_outputs [of n] size_list_estimation' [of x "outputs n" "size x" size]
  by simp

text \<open>Modelled from the spec: the traversal primitive \<open>visit_lqp_upwards\<close> (section 6:
  upward traversal with "visit / do not visit further" control per node), declared outside
  the sources. It is a queue of nodes to visit and a set of visited nodes; a node taken
  from the queue is skipped when visited before, and its consumers are queued when the
  visitor answers \<open>VisitOutputs\<close>. The visitor is the lambda of
  \<open>find_predicate_chains_recursively\<close>, written out: it extends the current chain, calls
  the function again for every consumer of a node with several consumers, and appends the
  current chain to the result at a node that ends the chain.\<close>

function visit_lqp_upwards ::
  "nat \<Rightarrow> lqp_node list \<Rightarrow> nat set \<Rightarrow> lqp_node list \<Rightarrow> lqp_node list list \<Rightarrow>
   lqp_node list list" where
  "visit_lqp_upwards stn [] visited_nodes chain predicate_chains = predicate_chains"
| "visit_lqp_upwards stn (current_node # node_queue) visited_nodes chain predicate_chains =
     (if node_id current_node \<in> visited_nodes then
        visit_lqp_upwards stn node_queue visited_nodes chain predicate_chains
      else if continues_chain (node_type current_node) then
        (let chain' =
               (if node_type current_node = Predicate \<and>
                   predicate_matches_table stn (node_predicate current_node)
                then chain @ [current_node] else chain)
         in if length (outputs current_node) > 1 then
              visit_lqp_upwards stn node_queue (insert (node_id current_node) visited_nodes)
                chain'
                (predicate_chains @
                 concat (map (\<lambda>output_node. visit_lqp_upwards stn [output_node] {} chain' [])
                           (outputs current_node)))
            else
              visit_lqp_upwards stn (node_queue @ outputs current_node)
                (insert (node_id current_node) visited_nodes) chain' predicate_chains)
      else
        visit_lqp_upwards stn node_queue (insert (node_id current_node) visited_nodes) chain
          (predicate_chains @ [chain]))"
  by pat_completeness auto
termination
proof (relation "measure (\<lambda>(stn, q, v, c, p). size_list size q)", goal_cases)
  case 1
  show ?case by simp
next
  case (2 stn current_node node_queue visited_nodes chain predicate_chains)
  show ?case by simp
next
  case (3 stn current_node node_queue visited_nodes chain predicate_chains x xa)
  then show ?case using size_output [of xa current_node] by simp
next
  case (4 stn current_node node_queue visited_nodes chain predicate_chains x)
  show ?case by simp
next
  case (5 stn current_node node_queue visited_nodes chain predicate_chains x)
  show ?case using size_outputs [of current_node] by simp
next
  case (6 stn current_node node_queue visited_nodes chain predicate_chains)
  show ?case by simp
qed

text \<open>The second equation unfolds under its own \<open>map\<close>; it is applied by hand in the
  proofs and added to the simplifier only to evaluate the walk on a concrete plan.\<close>

declare visit_lqp_upwards.simps(2) [simp del]

definition find_predicate_chains_recursively ::
  "nat \<Rightarrow> lqp_node \<Rightarrow> lqp_node list \<Rightarrow> lqp_node list list" where
  "find_predicate_chains_recursively stored_table_node node current_predicate_chain =
     visit_lqp_upwards stored_table_node [node] {} current_predicate_chain []"

section \<open>Applying the rule to a plan\<close>

text \<open>Step (3.1): the exclusion set of every chain of one stored-table node.\<close>

fun compute_chains ::
  "build \<Rightarrow> ('st, 'c) environment \<Rightarrow> ('st, 'c) Table \<Rightarrow> nat \<Rightarrow> lqp_node list list \<Rightarrow>
   ChunkID fset list \<Rightarrow> ('st, 'c) rule_state \<Rightarrow>
   error + (ChunkID fset list \<times> ('st, 'c) rule_state)" where
  "compute_chains b env table stn [] pruned_chunk_id_sets s = Inr (pruned_chunk_id_sets, s)"
| "compute_chains b env table stn (predicate_chain # rest) pruned_chunk_id_sets s =
     (case compute_exclude_list b env table predicate_chain stn s of
        Inl e \<Rightarrow> Inl e
      | Inr (exclusions, s') \<Rightarrow>
          compute_chains b env table stn rest (pruned_chunk_id_sets @ [exclusions]) s')"

text \<open>The body of loop (3) for one stored-table node and its chains.\<close>

definition prune_stored_table_node ::
  "build \<Rightarrow> ('st, 'c) environment \<Rightarrow> StoredTableNode \<Rightarrow> lqp_node list list \<Rightarrow>
   ('st, 'c) rule_state \<Rightarrow> error + ('st, 'c) rule_state" where
  "prune_stored_table_node b env stored_table_node predicate_chains s =
     (if predicate_chains = [] then Inr s
      else
        (let table = get_table env (table_name stored_table_node);
             stn = node_id (stn_node stored_table_node)
         in case compute_chains b env table stn predicate_chains [] s of
              Inl e \<Rightarrow> Inl e
            | Inr (pruned_chunk_id_sets, s') \<Rightarrow>
                (let pruned = intersect_chunk_ids pruned_chunk_id_sets
                 in if pruned = {||} then Inr s'
                    else
                      (case DebugAssert b
                              (pruned_chunk_ids (stored_table_node_fields s' stn) = [])
                              ''Did not expect a StoredTableNode with an already existing set of pruned chunk ids.'' of
                         Inl e \<Rightarrow> Inl e
                       | Inr u \<Rightarrow>
                           Inr (set_pruned_chunk_ids stn (sorted_list_of_fset pruned) s')))))"

fun prune_stored_table_nodes ::
  "build \<Rightarrow> ('st, 'c) environment \<Rightarrow> (StoredTableNode \<times> lqp_node list list) list \<Rightarrow>
   ('st, 'c) rule_state \<Rightarrow> error + ('st, 'c) rule_state" where
  "prune_stored_table_nodes b env [] s = Inr s"
| "prune_stored_table_nodes b env ((stored_table_node, predicate_chains) # rest) s =
     (case prune_stored_table_node b env stored_table_node predicate_chains s of
        Inl e \<Rightarrow> Inl e
      | Inr s' \<Rightarrow> prune_stored_table_nodes b env rest s')"

text \<open>
  Step (1) puts every stored-table node found in the plan into a map keyed by the node;
  a node met twice is kept once. The map is iterated in the order of this list.
\<close>

fun emplace_node ::
  "(StoredTableNode \<times> lqp_node list list) list \<Rightarrow> StoredTableNode \<Rightarrow>
   (StoredTableNode \<times> lqp_node list list) list" where
  "emplace_node m n =
     (if node_id (stn_node n) \<in> set (map (\<lambda>(k, cs). node_id (stn_node k)) m) then m
      else m @ [(n, [])])"

text \<open>
  The rule on one plan. \<open>leafs\<close> is what \<open>lqp_find_leafs\<close> returns for the plan's root:
  its stored-table nodes, each with the plan above it.
\<close>

definition apply_to_plan_without_subqueries ::
  "build \<Rightarrow> ('st, 'c) environment \<Rightarrow> StoredTableNode list \<Rightarrow> ('st, 'c) rule_state \<Rightarrow>
   error + ('st, 'c) rule_state" where
  "apply_to_plan_without_subqueries b env leafs s =
     (let predicate_chains_by_stored_table_node =
            map (\<lambda>(stored_table_node, cs).
                   (stored_table_node,
                    find_predicate_chains_recursively (node_id (stn_node stored_table_node))
                      (stn_node stored_table_node) []))
              (foldl emplace_node [] leafs)
      in prune_stored_table_nodes b env predicate_chains_by_stored_table_node s)"

section \<open>A concrete table, plan and environment\<close>

text \<open>
  The examples below run the rule on a table of three chunks of ten rows with two integer
  columns; chunk \<open>i\<close> holds the values \<open>10 i\<close> to \<open>10 i + 9\<close> in both columns and has a
  range filter for each. A statistics object is the record of the transformations applied
  to a column's histogram, and row counts are real numbers.
\<close>

datatype example_statistics =
    Histogram ColumnID
  | Scaled example_statistics real
  | Pruned example_statistics nat PredicateCondition AllTypeVariant "AllTypeVariant option"

fun example_filter :: "int \<Rightarrow> int \<Rightarrow> Filter" where
  "example_filter lo hi GreaterThan (Int32 x) v2 = (hi \<le> x)"
| "example_filter lo hi GreaterThanEquals (Int32 x) v2 = (hi < x)"
| "example_filter lo hi LessThan (Int32 x) v2 = (x \<le> lo)"
| "example_filter lo hi LessThanEquals (Int32 x) v2 = (x < lo)"
| "example_filter lo hi Equals (Int32 x) v2 = (x < lo \<or> hi < x)"
| "example_filter lo hi condition v v2 = False"

definition example_chunk :: "int \<Rightarrow> Chunk option" where
  "example_chunk i =
     Some \<lparr>chunk_size = 10,
           pruning_statistics =
             Some (\<lambda>col. \<lparr>data_type = TInt,
                           range_filter = Some (example_filter (10 * i) (10 * i + 9)),
                           min_max_filter = None\<rparr>)\<rparr>"

definition example_table :: "(example_statistics, real) Table" where
  "example_table =
     \<lparr>chunks = [example_chunk 0, example_chunk 1, example_chunk 2],
      base_table_statistics = \<lparr>column_statistics = [Histogram 0, Histogram 1], row_count = 30\<rparr>,
      column_data_types = (\<lambda>col. TInt)\<rparr>"

fun example_from_expression :: "expression \<Rightarrow> OperatorScanPredicate list option" where
  "example_from_expression (PredicateExpression condition
       [LQPColumnExpression original col, ValueExpression v]) =
     Some [\<lparr>column_id = col, predicate_condition = condition, value1 = Variant v,
            value2 = None\<rparr>]"
| "example_from_expression (PredicateExpression condition
       [LQPColumnExpression original col, LQPColumnExpression original' col']) =
     Some [\<lparr>column_id = col, predicate_condition = condition, value1 = Column col',
            value2 = None\<rparr>]"
| "example_from_expression e = None"

fun example_cast :: "AllTypeVariant \<Rightarrow> DataType \<Rightarrow> AllTypeVariant option" where
  "example_cast (Int32 x) TInt = Some (Int32 x)"
| "example_cast (Float64 x) TInt =
     (if of_int (floor x) = x then Some (Int32 (floor x)) else None)"
| "example_cast v t = None"

definition example_environment :: "(example_statistics, real) environment" where
  "example_environment =
     \<lparr>get_table = (\<lambda>name. example_table),
      from_expression = example_from_expression,
      lossless_variant_cast = example_cast,
      scaled = Scaled,
      pruned = Pruned,
      float_of_nat = real,
      float_minus = (\<lambda>x y. x - y),
      float_divide = (\<lambda>x y. x / y)\<rparr>"

definition initial_state :: "(example_statistics, real) rule_state" where
  "initial_state =
     \<lparr>excluded_chunk_ids_by_predicate_node = Map.empty,
      stored_table_node_fields = (\<lambda>n. \<lparr>pruned_chunk_ids = [], table_statistics = None\<rparr>),
      scanned = []\<rparr>"

text \<open>
  Plan nodes: the root (identity 9) ends every chain; predicate nodes compare column 0 or
  1 of the stored-table node 0 with a constant.
\<close>

definition root_node :: lqp_node where
  "root_node = LQPNode 9 Other (Expression []) []"

definition column_predicate ::
  "nat \<Rightarrow> ColumnID \<Rightarrow> PredicateCondition \<Rightarrow> AllTypeVariant \<Rightarrow> lqp_node list \<Rightarrow> lqp_node" where
  "column_predicate ident col condition v consumers =
     LQPNode ident Predicate
       (PredicateExpression condition [LQPColumnExpression (Some 0) col, ValueExpression v])
       consumers"

definition stored_table :: "lqp_node list \<Rightarrow> StoredTableNode" where
  "stored_table consumers =
     \<lparr>stn_node = LQPNode 0 StoredTable (Expression []) consumers, table_name = ''t''\<rparr>"

text \<open>A predicate node over column 0 of the stored-table node whose expression the
  normaliser rejects.\<close>

definition unsupported_predicate :: "nat \<Rightarrow> lqp_node list \<Rightarrow> lqp_node" where
  "unsupported_predicate ident consumers =
     LQPNode ident Predicate (Expression [LQPColumnExpression (Some 0) 0]) consumers"

text \<open>The same table before its chunks have pruning statistics, and an environment whose
  storage manager returns it.\<close>

definition unanalysed_table :: "(example_statistics, real) Table" where
  "unanalysed_table =
     \<lparr>chunks = [Some \<lparr>chunk_size = 10, pruning_statistics = None\<rparr>,
                Some \<lparr>chunk_size = 10, pruning_statistics = None\<rparr>,
                Some \<lparr>chunk_size = 10, pruning_statistics = None\<rparr>],
      base_table_statistics = \<lparr>column_statistics = [Histogram 0, Histogram 1], row_count = 30\<rparr>,
      column_data_types = (\<lambda>col. TInt)\<rparr>"

definition environment_without_statistics :: "(example_statistics, real) environment" where
  "environment_without_statistics = example_environment\<lparr>get_table := (\<lambda>name. unanalysed_table)\<rparr>"

text \<open>
  A predicate node over a column of another stored-table node (identity 5), and a plan
  above the stored-table node 0: a matching predicate, then that foreign predicate, then
  a join with two consumers, a matching predicate and a validate node.
\<close>

definition foreign_predicate :: "nat \<Rightarrow> lqp_node list \<Rightarrow> lqp_node" where
  "foreign_predicate ident consumers =
     LQPNode ident Predicate
       (PredicateExpression Equals [LQPColumnExpression (Some 5) 0, ValueExpression (Int32 1)])
       consumers"

definition branching_plan :: lqp_node where
  "branching_plan =
     column_predicate 1 0 LessThan (Int32 14)
       [foreign_predicate 2
          [LQPNode 3 Join (Expression [])
             [column_predicate 4 0 GreaterThan (Int32 15) [root_node],
              LQPNode 5 Validate (Expression []) [root_node]]]]"

section \<open>Notions of the specification\<close>

text \<open>
  A value of a normalized predicate is usable when it is a plain scalar that casts
  losslessly to the declared type of the predicate's column.
\<close>

definition usable_value ::
  "('st, 'c) environment \<Rightarrow> ('st, 'c) Table \<Rightarrow> OperatorScanPredicate \<Rightarrow> AllParameterVariant \<Rightarrow> bool" where
  "usable_value env table p x =
     (case x of
        Variant v \<Rightarrow> lossless_variant_cast env v (column_data_types table (column_id p)) \<noteq> None
      | Column c \<Rightarrow> False
      | Parameter q \<Rightarrow> False)"

text \<open>
  No predicate node occurs twice in the trace of scans, and every scanned node has an
  entry in the memo.
\<close>

definition scanned_once :: "('st, 'c) rule_state \<Rightarrow> bool" where
  "scanned_once s =
     (distinct (scanned s) \<and> set (scanned s) \<subseteq> dom (excluded_chunk_ids_by_predicate_node s))"

text \<open>
  The plan is a directed acyclic graph: above a node, no path comes back to the node's
  identity. \<open>extended_chain\<close> is the accumulated chain after the walk has visited a node.
\<close>

fun ids_above :: "lqp_node \<Rightarrow> nat list" where
  "ids_above (LQPNode ident t e consumers) = ident # concat (map ids_above consumers)"

fun acyclic_above :: "lqp_node \<Rightarrow> bool" where
  "acyclic_above (LQPNode ident t e consumers) =
     list_all (\<lambda>consumer. ident \<notin> set (ids_above consumer) \<and> acyclic_above consumer) consumers"

definition extended_chain :: "nat \<Rightarrow> lqp_node \<Rightarrow> lqp_node list \<Rightarrow> lqp_node list" where
  "extended_chain stn node chain =
     (if node_type node = Predicate \<and> predicate_matches_table stn (node_predicate node)
      then chain @ [node] else chain)"

section \<open>Unfolding the definitions\<close>

lemmas ex_defs = example_environment_def example_table_def example_chunk_def initial_state_def
  root_node_def column_predicate_def stored_table_def unsupported_predicate_def
  environment_without_statistics_def unanalysed_table_def
  foreign_predicate_def branching_plan_def

lemmas rule_defs = apply_to_plan_without_subqueries_def prune_stored_table_node_def
  find_predicate_chains_recursively_def continues_chain_def is_non_filtering_node_def
  compute_exclude_list_def evaluate_operator_predicate_def cast_value2_def
  prune_table_statistics_def can_prune_def DebugAssert_def is_arithmetic_def
  set_table_statistics_def set_pruned_chunk_ids_def emplace_def intersect_chunk_ids_def
  sorted_list_of_fset.rep_eq Let_def visit_lqp_upwards.simps

section \<open>Properties of the intersection and of the frame of a chain evaluation\<close>

lemma intersect_loop_member:
  "x |\<in>| intersect_loop acc sets \<longleftrightarrow> x |\<in>| acc \<and> (\<forall>A\<in>set sets. x |\<in>| A)"
  by (induction sets arbitrary: acc) auto

lemma intersect_chunk_ids_member:
  "x |\<in>| intersect_chunk_ids sets \<longleftrightarrow> sets \<noteq> [] \<and> (\<forall>A\<in>set sets. x |\<in>| A)"
  by (auto simp: intersect_chunk_ids_def intersect_loop_member split: list.splits)

lemma intersect_chunk_ids_single: "intersect_chunk_ids [A] = A"
  by (simp add: intersect_chunk_ids_def)

lemma intersect_chunk_ids_empty:
  "sets = [] \<or> {||} \<in> set sets \<Longrightarrow> intersect_chunk_ids sets = {||}"
  using intersect_chunk_ids_member [of _ sets] by fastforce


lemma evaluate_operator_predicate_pruned_ids:
  "evaluate_operator_predicate b env table stn p local s = Inr (local', s') \<Longrightarrow>
   pruned_chunk_ids (stored_table_node_fields s' i) = pruned_chunk_ids (stored_table_node_fields s i)"
  by (auto simp: evaluate_operator_predicate_def set_table_statistics_def Let_def
      split: AllParameterVariant.splits option.splits sum.splits if_splits prod.splits)

lemma evaluate_operator_predicates_pruned_ids:
  "evaluate_operator_predicates b env table stn ps local s = Inr (local', s') \<Longrightarrow>
   pruned_chunk_ids (stored_table_node_fields s' i) = pruned_chunk_ids (stored_table_node_fields s i)"
proof (induction ps arbitrary: local s)
  case Nil
  then show ?case by simp
next
  case (Cons p ps)
  then show ?case
    by (auto split: sum.splits prod.splits dest!: evaluate_operator_predicate_pruned_ids [where i = i])
qed

lemma compute_exclude_loop_pruned_ids:
  "compute_exclude_loop b env table stn chain global s = Inr (result, s') \<Longrightarrow>
   pruned_chunk_ids (stored_table_node_fields s' i) = pruned_chunk_ids (stored_table_node_fields s i)"
proof (induction chain arbitrary: global s)
  case Nil
  then show ?case by simp
next
  case (Cons p ps)
  then show ?case
    by (fastforce split: sum.splits prod.splits option.splits dest!: evaluate_operator_predicates_pruned_ids [where i = i])
qed

lemma compute_chains_pruned_ids:
  "compute_chains b env table stn pchains acc s = Inr (sets, s') \<Longrightarrow>
   pruned_chunk_ids (stored_table_node_fields s' i) = pruned_chunk_ids (stored_table_node_fields s i)"
proof (induction pchains arbitrary: acc s)
  case Nil
  then show ?case by simp
next
  case (Cons c cs)
  then show ?case
    by (fastforce simp: compute_exclude_list_def split: sum.splits prod.splits
        dest!: compute_exclude_loop_pruned_ids [where i = i])
qed

lemma compute_chains_length:
  "compute_chains b env table stn pchains acc s = Inr (sets, s') \<Longrightarrow>
   length sets = length acc + length pchains"
  by (induction pchains arbitrary: acc s) (auto split: sum.splits prod.splits)

lemma prune_columns_scalar:
  assumes "value1 p = Variant v0" and "value2 p = map_option Variant w0"
  shows "\<exists>news. prune_columns env p n scale olds k = Inr news \<and>
           length news = length olds \<and>
           (\<forall>j<length olds.
              news ! j =
                (if k + j = column_id p
                 then pruned env (olds ! j) n (predicate_condition p) v0 w0
                 else scaled env (olds ! j) scale))"
proof (induction olds arbitrary: k)
  case Nil
  show ?case by simp
next
  case (Cons old olds)
  from Cons [of "Suc k"] obtain news where
    rest: "prune_columns env p n scale olds (Suc k) = Inr news"
    and len: "length news = length olds"
    and nth: "\<forall>j<length olds.
              news ! j =
                (if Suc k + j = column_id p
                 then pruned env (olds ! j) n (predicate_condition p) v0 w0
                 else scaled env (olds ! j) scale)"
    by (elim exE conjE)
  let ?head = "if k = column_id p
               then pruned env old n (predicate_condition p) v0 w0
               else scaled env old scale"
  have step: "prune_columns env p n scale (old # olds) k = Inr (?head # news)"
    using assms rest by (cases w0) simp_all
  have "\<forall>j<length (old # olds).
          (?head # news) ! j =
            (if k + j = column_id p
             then pruned env ((old # olds) ! j) n (predicate_condition p) v0 w0
             else scaled env ((old # olds) ! j) scale)"
  proof (intro allI impI)
    fix j
    assume "j < length (old # olds)"
    then show "(?head # news) ! j =
            (if k + j = column_id p
             then pruned env ((old # olds) ! j) n (predicate_condition p) v0 w0
             else scaled env ((old # olds) ! j) scale)"
      using nth by (cases j) simp_all
  qed
  with step len show ?case by simp
qed

lemma prune_table_statistics_scalar:
  assumes "value1 p = Variant v0" and "value2 p = map_option Variant w0"
  shows "\<exists>new. prune_table_statistics env old p n = Inr new \<and>
           row_count new = float_minus env (row_count old) (float_of_nat env n) \<and>
           length (column_statistics new) = length (column_statistics old) \<and>
           (\<forall>j<length (column_statistics old).
              column_statistics new ! j =
                (if j = column_id p
                 then pruned env (column_statistics old ! j) n (predicate_condition p) v0 w0
                 else scaled env (column_statistics old ! j)
                        (float_minus env (float_of_nat env 1)
                           (float_divide env (float_of_nat env n) (row_count old)))))"
proof -
  obtain news where
    "prune_columns env p n
       (float_minus env (float_of_nat env 1)
          (float_divide env (float_of_nat env n) (row_count old)))
       (column_statistics old) 0 = Inr news"
    and "length news = length (column_statistics old)"
    and "\<forall>j<length (column_statistics old).
              news ! j =
                (if 0 + j = column_id p
                 then pruned env (column_statistics old ! j) n (predicate_condition p) v0 w0
                 else scaled env (column_statistics old ! j)
                        (float_minus env (float_of_nat env 1)
                           (float_divide env (float_of_nat env n) (row_count old))))"
    using prune_columns_scalar [OF assms, where env = env and n = n and k = 0
        and olds = "column_statistics old"
        and scale = "float_minus env (float_of_nat env 1)
          (float_divide env (float_of_nat env n) (row_count old))"]
    by (elim exE conjE)
  then show ?thesis
    by (simp add: prune_table_statistics_def Let_def)
qed

section \<open>The memo only grows, and a node is scanned once\<close>

lemma evaluate_operator_predicate_memo:
  "evaluate_operator_predicate b env table stn p local s = Inr (local', s') \<Longrightarrow>
   excluded_chunk_ids_by_predicate_node s' = excluded_chunk_ids_by_predicate_node s \<and>
   scanned s' = scanned s"
  by (auto simp: evaluate_operator_predicate_def set_table_statistics_def Let_def
      split: AllParameterVariant.splits option.splits sum.splits if_splits prod.splits)

lemma evaluate_operator_predicates_memo:
  "evaluate_operator_predicates b env table stn ps local s = Inr (local', s') \<Longrightarrow>
   excluded_chunk_ids_by_predicate_node s' = excluded_chunk_ids_by_predicate_node s \<and>
   scanned s' = scanned s"
proof (induction ps arbitrary: local s)
  case Nil
  then show ?case by simp
next
  case (Cons p ps)
  then show ?case
    by (auto split: sum.splits prod.splits dest!: evaluate_operator_predicate_memo)
qed

lemma emplace_map_le: "m \<subseteq>\<^sub>m emplace m k v"
  by (auto simp: emplace_def map_le_def split: option.splits)

lemma compute_exclude_loop_memo:
  "compute_exclude_loop b env table stn chain global s = Inr (result, s') \<Longrightarrow>
   excluded_chunk_ids_by_predicate_node s \<subseteq>\<^sub>m excluded_chunk_ids_by_predicate_node s'"
proof (induction chain arbitrary: global s)
  case Nil
  then show ?case by simp
next
  case (Cons p ps)
  show ?case
  proof (cases "excluded_chunk_ids_by_predicate_node s (node_id p)")
    case (Some local)
    with Cons show ?thesis by simp
  next
    case None
    show ?thesis
    proof (cases "from_expression env (node_predicate p)")
      case None
      with \<open>excluded_chunk_ids_by_predicate_node s (node_id p) = None\<close> Cons.prems
      show ?thesis by simp
    next
      case (Some ops)
      let ?s0 = "s\<lparr>scanned := scanned s @ [node_id p]\<rparr>"
      from Cons.prems None Some obtain local s1 where
        ev: "evaluate_operator_predicates b env table stn ops {||} ?s0 = Inr (local, s1)"
        and rest: "compute_exclude_loop b env table stn ps (global |\<union>| local)
                (s1\<lparr>excluded_chunk_ids_by_predicate_node :=
                      emplace (excluded_chunk_ids_by_predicate_node s1) (node_id p) local\<rparr>) =
              Inr (result, s')"
        by (auto split: sum.splits prod.splits)
      from evaluate_operator_predicates_memo [OF ev]
      have m1: "excluded_chunk_ids_by_predicate_node s1 = excluded_chunk_ids_by_predicate_node s"
        by simp
      from Cons.IH [OF rest]
      have "emplace (excluded_chunk_ids_by_predicate_node s1) (node_id p) local \<subseteq>\<^sub>m
            excluded_chunk_ids_by_predicate_node s'"
        by simp
      with emplace_map_le [of "excluded_chunk_ids_by_predicate_node s1" "node_id p" local] m1
      show ?thesis by (metis map_le_trans)
    qed
  qed
qed

lemma compute_exclude_loop_scanned_once:
  "compute_exclude_loop b env table stn chain global s = Inr (result, s') \<Longrightarrow>
   scanned_once s \<Longrightarrow> scanned_once s'"
proof (induction chain arbitrary: global s)
  case Nil
  then show ?case by simp
next
  case (Cons p ps)
  show ?case
  proof (cases "excluded_chunk_ids_by_predicate_node s (node_id p)")
    case (Some local)
    with Cons show ?thesis by simp
  next
    case None
    show ?thesis
    proof (cases "from_expression env (node_predicate p)")
      case None
      with \<open>excluded_chunk_ids_by_predicate_node s (node_id p) = None\<close> Cons.prems
      show ?thesis by simp
    next
      case (Some ops)
      let ?s0 = "s\<lparr>scanned := scanned s @ [node_id p]\<rparr>"
      from Cons.prems(1) None Some obtain local s1 where
        ev: "evaluate_operator_predicates b env table stn ops {||} ?s0 = Inr (local, s1)"
        and rest: "compute_exclude_loop b env table stn ps (global |\<union>| local)
                (s1\<lparr>excluded_chunk_ids_by_predicate_node :=
                      emplace (excluded_chunk_ids_by_predicate_node s1) (node_id p) local\<rparr>) =
              Inr (result, s')"
        by (auto split: sum.splits prod.splits)
      from evaluate_operator_predicates_memo [OF ev]
      have m1: "excluded_chunk_ids_by_predicate_node s1 = excluded_chunk_ids_by_predicate_node s"
        and t1: "scanned s1 = scanned s @ [node_id p]"
        by simp_all
      have "node_id p \<notin> set (scanned s)"
        using Cons.prems(2) None by (auto simp: scanned_once_def)
      then have "scanned_once (s1\<lparr>excluded_chunk_ids_by_predicate_node :=
                      emplace (excluded_chunk_ids_by_predicate_node s1) (node_id p) local\<rparr>)"
        using Cons.prems(2) None m1 t1
        by (auto simp: scanned_once_def emplace_def)
      with Cons.IH [OF rest] show ?thesis .
    qed
  qed
qed

lemma compute_chains_memo:
  "compute_chains b env table stn pchains acc s = Inr (sets, s') \<Longrightarrow>
   excluded_chunk_ids_by_predicate_node s \<subseteq>\<^sub>m excluded_chunk_ids_by_predicate_node s'"
proof (induction pchains arbitrary: acc s)
  case Nil
  then show ?case by simp
next
  case (Cons c cs)
  from Cons.prems obtain x s1 where
    one: "compute_exclude_loop b env table stn c {||} s = Inr (x, s1)"
    and rest: "compute_chains b env table stn cs (acc @ [x]) s1 = Inr (sets, s')"
    by (auto simp: compute_exclude_list_def split: sum.splits prod.splits)
  from compute_exclude_loop_memo [OF one] Cons.IH [OF rest]
  show ?case by (rule map_le_trans)
qed

lemma compute_chains_scanned_once:
  "compute_chains b env table stn pchains acc s = Inr (sets, s') \<Longrightarrow>
   scanned_once s \<Longrightarrow> scanned_once s'"
proof (induction pchains arbitrary: acc s)
  case Nil
  then show ?case by simp
next
  case (Cons c cs)
  from Cons.prems(1) obtain x s1 where
    one: "compute_exclude_loop b env table stn c {||} s = Inr (x, s1)"
    and rest: "compute_chains b env table stn cs (acc @ [x]) s1 = Inr (sets, s')"
    by (auto simp: compute_exclude_list_def split: sum.splits prod.splits)
  from Cons.IH [OF rest compute_exclude_loop_scanned_once [OF one Cons.prems(2)]]
  show ?case .
qed

lemma prune_stored_table_node_memo:
  assumes "prune_stored_table_node b env n pchains s = Inr s'"
  shows "excluded_chunk_ids_by_predicate_node s \<subseteq>\<^sub>m excluded_chunk_ids_by_predicate_node s'"
    and "scanned_once s \<Longrightarrow> scanned_once s'"
proof -
  show "excluded_chunk_ids_by_predicate_node s \<subseteq>\<^sub>m excluded_chunk_ids_by_predicate_node s'"
    using assms
    by (auto simp: prune_stored_table_node_def Let_def set_pruned_chunk_ids_def
        split: if_splits sum.splits prod.splits dest: compute_chains_memo)
  show "scanned_once s \<Longrightarrow> scanned_once s'"
    using assms
    by (auto simp: prune_stored_table_node_def Let_def set_pruned_chunk_ids_def scanned_once_def
        split: if_splits sum.splits prod.splits
        dest!: compute_chains_scanned_once [unfolded scanned_once_def])
qed

lemma prune_stored_table_nodes_memo:
  "prune_stored_table_nodes b env nodes s = Inr s' \<Longrightarrow>
   excluded_chunk_ids_by_predicate_node s \<subseteq>\<^sub>m excluded_chunk_ids_by_predicate_node s' \<and>
   (scanned_once s \<longrightarrow> scanned_once s')"
proof (induction nodes arbitrary: s)
  case Nil
  then show ?case by simp
next
  case (Cons nc rest)
  obtain n c where nc: "nc = (n, c)" by (cases nc)
  from Cons.prems nc obtain s1 where
    one: "prune_stored_table_node b env n c s = Inr s1"
    and more: "prune_stored_table_nodes b env rest s1 = Inr s'"
    by (auto split: sum.splits)
  from prune_stored_table_node_memo [OF one] Cons.IH [OF more]
  show ?case by (auto intro: map_le_trans)
qed

section \<open>The upward walk, one node at a time\<close>

lemma visit_lqp_upwards_single:
  "visit_lqp_upwards stn [n] V chain pcs =
     (if node_id n \<in> V then pcs
      else if continues_chain (node_type n) then
        (if length (outputs n) > 1 then
           pcs @ concat (map (\<lambda>output_node.
                                visit_lqp_upwards stn [output_node] {}
                                  (extended_chain stn n chain) [])
                           (outputs n))
         else visit_lqp_upwards stn (outputs n) (insert (node_id n) V)
                (extended_chain stn n chain) pcs)
      else pcs @ [chain])"
  by (subst visit_lqp_upwards.simps(2)) (simp add: Let_def extended_chain_def)

lemma visit_lqp_upwards_fresh:
  "acyclic_above n \<Longrightarrow> set (ids_above n) \<inter> V = {} \<Longrightarrow>
   visit_lqp_upwards stn [n] V chain pcs = pcs @ visit_lqp_upwards stn [n] {} chain []"
proof (induction n arbitrary: V chain pcs)
  case (LQPNode ident t e consumers)
  let ?n = "LQPNode ident t e consumers"
  let ?c = "extended_chain stn ?n chain"
  have fresh: "ident \<notin> V" using LQPNode.prems(2) by auto
  have l: "visit_lqp_upwards stn [?n] V chain pcs =
     (if continues_chain t then
        (if length consumers > 1 then
           pcs @ concat (map (\<lambda>output_node. visit_lqp_upwards stn [output_node] {} ?c [])
                           consumers)
         else visit_lqp_upwards stn consumers (insert ident V) ?c pcs)
      else pcs @ [chain])"
    using fresh by (subst visit_lqp_upwards_single) simp
  have r: "visit_lqp_upwards stn [?n] {} chain [] =
     (if continues_chain t then
        (if length consumers > 1 then
           concat (map (\<lambda>output_node. visit_lqp_upwards stn [output_node] {} ?c [])
                     consumers)
         else visit_lqp_upwards stn consumers {ident} ?c [])
      else [chain])"
    by (subst visit_lqp_upwards_single) simp
  show ?case
  proof (cases "continues_chain t \<and> \<not> length consumers > 1")
    case False
    then show ?thesis
      unfolding l r by auto
  next
    case True
    show ?thesis
    proof (cases consumers)
      case Nil
      with True show ?thesis unfolding l r by simp
    next
      case (Cons consumer more)
      with True have one: "consumers = [consumer]" by (cases more) simp_all
      have ac: "acyclic_above consumer" and notin: "ident \<notin> set (ids_above consumer)"
        using LQPNode.prems(1) one by simp_all
      have sub: "set (ids_above consumer) \<inter> insert ident V = {}"
        using LQPNode.prems(2) notin one by auto
      have sub0: "set (ids_above consumer) \<inter> {ident} = {}"
        using notin by auto
      have mem: "consumer \<in> set consumers" using one by simp
      have "visit_lqp_upwards stn [consumer] (insert ident V) ?c pcs =
            pcs @ visit_lqp_upwards stn [consumer] {} ?c []"
        by (rule LQPNode.IH [OF mem ac sub])
      moreover have "visit_lqp_upwards stn [consumer] {ident} ?c [] =
            [] @ visit_lqp_upwards stn [consumer] {} ?c []"
        by (rule LQPNode.IH [OF mem ac sub0])
      ultimately show ?thesis
        unfolding l r using True one by simp
    qed
  qed
qed

section \<open>Verified properties of the rule\<close>

text \<open>
  C1. For a stored-table node, let \<open>sets\<close> be the exclusion sets that step (3.1) computes
  for its predicate chains. The set the rule decides on is
  \<open>intersect_chunk_ids sets\<close>: a chunk is in it exactly when there is a chain and the chunk
  is in the exclusion set of every chain. It is empty when there is no chain or some
  chain's set is empty, and it is the chain's own set when there is exactly one chain.
  When it is empty the node's pruned chunk ids are not written; otherwise (on a node not
  pruned before) the pruned chunk ids written are exactly this set, in ascending order.
\<close>

theorem final_pruned_set_is_intersection:
  assumes "compute_chains b env (get_table env (table_name n)) (node_id (stn_node n))
             predicate_chains [] s = Inr (sets, s1)"
  shows "(\<forall>x. x |\<in>| intersect_chunk_ids sets \<longleftrightarrow>
               predicate_chains \<noteq> [] \<and> (\<forall>A\<in>set sets. x |\<in>| A)) \<and>
         (predicate_chains = [] \<or> {||} \<in> set sets \<longrightarrow> intersect_chunk_ids sets = {||}) \<and>
         (\<forall>A. sets = [A] \<longrightarrow> intersect_chunk_ids sets = A) \<and>
         (intersect_chunk_ids sets = {||} \<longrightarrow>
            prune_stored_table_node b env n predicate_chains s = Inr s1 \<and>
            pruned_chunk_ids (stored_table_node_fields s1 (node_id (stn_node n))) =
              pruned_chunk_ids (stored_table_node_fields s (node_id (stn_node n)))) \<and>
         (intersect_chunk_ids sets \<noteq> {||} \<and>
          pruned_chunk_ids (stored_table_node_fields s (node_id (stn_node n))) = [] \<longrightarrow>
            prune_stored_table_node b env n predicate_chains s =
              Inr (set_pruned_chunk_ids (node_id (stn_node n))
                     (sorted_list_of_fset (intersect_chunk_ids sets)) s1) \<and>
            fset_of_list (pruned_chunk_ids (stored_table_node_fields
                 (set_pruned_chunk_ids (node_id (stn_node n))
                     (sorted_list_of_fset (intersect_chunk_ids sets)) s1) (node_id (stn_node n)))) =
              intersect_chunk_ids sets)"
proof -
  have len: "length sets = length predicate_chains"
    using compute_chains_length [OF assms] by simp
  have ids: "pruned_chunk_ids (stored_table_node_fields s1 (node_id (stn_node n))) =
             pruned_chunk_ids (stored_table_node_fields s (node_id (stn_node n)))"
    by (rule compute_chains_pruned_ids [OF assms])
  have nil: "predicate_chains = [] \<Longrightarrow> s1 = s"
    using assms by simp
  have c1: "\<forall>x. x |\<in>| intersect_chunk_ids sets \<longleftrightarrow>
               predicate_chains \<noteq> [] \<and> (\<forall>A\<in>set sets. x |\<in>| A)"
    using len by (auto simp: intersect_chunk_ids_member)
  have c2: "predicate_chains = [] \<or> {||} \<in> set sets \<longrightarrow> intersect_chunk_ids sets = {||}"
    using len intersect_chunk_ids_empty [of sets] by auto
  have c3: "\<forall>A. sets = [A] \<longrightarrow> intersect_chunk_ids sets = A"
    by (simp add: intersect_chunk_ids_single)
  have c4: "intersect_chunk_ids sets = {||} \<longrightarrow>
            prune_stored_table_node b env n predicate_chains s = Inr s1"
    using assms nil by (auto simp: prune_stored_table_node_def Let_def)
  have c5: "intersect_chunk_ids sets \<noteq> {||} \<and>
          pruned_chunk_ids (stored_table_node_fields s (node_id (stn_node n))) = [] \<longrightarrow>
            prune_stored_table_node b env n predicate_chains s =
              Inr (set_pruned_chunk_ids (node_id (stn_node n))
                     (sorted_list_of_fset (intersect_chunk_ids sets)) s1)"
    using assms ids c2
    by (auto simp: prune_stored_table_node_def Let_def DebugAssert_def)
  have c6: "fset_of_list (pruned_chunk_ids (stored_table_node_fields
                 (set_pruned_chunk_ids (node_id (stn_node n))
                     (sorted_list_of_fset (intersect_chunk_ids sets)) s1) (node_id (stn_node n)))) =
              intersect_chunk_ids sets"
    by (simp add: set_pruned_chunk_ids_def)
  show ?thesis using c1 c2 c3 c4 c5 c6 ids by blast
qed

theorem final_pruned_set_is_intersection_witness:
  "(\<exists>s1. compute_chains Debug example_environment example_table 0
            [[column_predicate 1 0 GreaterThan (Int32 25) [root_node]],
             [column_predicate 2 0 GreaterThan (Int32 15) [root_node]]] [] initial_state =
          Inr ([{|1, 0|}, {|0|}], s1)) \<and>
   intersect_chunk_ids [{|1, 0|}, {|0|}] = {|0|} \<and>
   (\<exists>s2. prune_stored_table_node Debug example_environment (stored_table [])
            [[column_predicate 1 0 GreaterThan (Int32 25) [root_node]],
             [column_predicate 2 0 GreaterThan (Int32 15) [root_node]]] initial_state = Inr s2 \<and>
         pruned_chunk_ids (stored_table_node_fields s2 0) = [0])"
proof -
  have "\<exists>s1. compute_chains Debug example_environment
            (get_table example_environment (table_name (stored_table [])))
            (node_id (stn_node (stored_table [])))
            [[column_predicate 1 0 GreaterThan (Int32 25) [root_node]],
             [column_predicate 2 0 GreaterThan (Int32 15) [root_node]]] [] initial_state =
          Inr ([{|1, 0|}, {|0|}], s1)"
    by (simp add: ex_defs rule_defs)
  then obtain s1 where h: "compute_chains Debug example_environment
            (get_table example_environment (table_name (stored_table [])))
            (node_id (stn_node (stored_table [])))
            [[column_predicate 1 0 GreaterThan (Int32 25) [root_node]],
             [column_predicate 2 0 GreaterThan (Int32 15) [root_node]]] [] initial_state =
          Inr ([{|1, 0|}, {|0|}], s1)" ..
  have i: "intersect_chunk_ids [{|1, 0|}, {|0|}] = {|0::nat|}"
    by (auto simp: intersect_chunk_ids_def)
  have p: "pruned_chunk_ids (stored_table_node_fields initial_state
             (node_id (stn_node (stored_table [])))) = []"
    by (simp add: initial_state_def)
  have e: "sorted_list_of_fset {|0::nat|} = [0]"
    by (simp add: sorted_list_of_fset.rep_eq)
  show ?thesis
    using h i p e final_pruned_set_is_intersection [OF h]
    by (simp add: set_pruned_chunk_ids_def stored_table_def example_environment_def)
qed

text \<open>
  C9. A normalized predicate whose value, or whose second value, is not a plain scalar or
  does not cast losslessly to the column's type is skipped: evaluating it returns without
  a fault, with the node's exclusion set and the whole state (statistics override
  included) as they were. The example is a comparison of an integer column with 25.5.
\<close>

theorem unusable_tuple_is_skipped:
  assumes "\<not> usable_value env table p (value1 p) \<or>
           (\<exists>w. value2 p = Some w \<and> \<not> usable_value env table p w)"
  shows "evaluate_operator_predicate b env table stn p local s = Inr (local, s)"
proof (cases "usable_value env table p (value1 p)")
  case False
  then show ?thesis
    by (cases "value1 p")
       (auto simp: evaluate_operator_predicate_def usable_value_def Let_def)
next
  case True
  with assms obtain w where w: "value2 p = Some w" "\<not> usable_value env table p w"
    by blast
  from w(2) have "cast_value2 env (column_data_types table (column_id p)) (Some w) = None"
    by (cases w) (auto simp: usable_value_def cast_value2_def)
  with w(1) show ?thesis
    by (cases "value1 p")
       (auto simp: evaluate_operator_predicate_def Let_def split: option.splits)
qed

theorem unusable_tuple_is_skipped_witness:
  "\<not> usable_value example_environment example_table
       \<lparr>column_id = 0, predicate_condition = GreaterThan, value1 = Variant (Float64 (51 / 2)),
        value2 = None\<rparr> (Variant (Float64 (51 / 2))) \<and>
   evaluate_operator_predicate Debug example_environment example_table 0
       \<lparr>column_id = 0, predicate_condition = GreaterThan, value1 = Variant (Float64 (51 / 2)),
        value2 = None\<rparr> {||} initial_state = Inr ({||}, initial_state) \<and>
   (\<exists>s. apply_to_plan_without_subqueries Debug example_environment
          [stored_table [column_predicate 1 0 GreaterThan (Float64 (51 / 2)) [root_node]]]
          initial_state = Inr s \<and>
        pruned_chunk_ids (stored_table_node_fields s 0) = [] \<and>
        table_statistics (stored_table_node_fields s 0) = None)"
proof -
  have fl: "real_of_int (floor (51 / 2 :: real)) \<noteq> 51 / 2"
  proof
    assume "real_of_int (floor (51 / 2 :: real)) = 51 / 2"
    then have "real_of_int (2 * floor (51 / 2 :: real)) = real_of_int 51" by simp
    then have "2 * floor (51 / 2 :: real) = 51" by (simp only: of_int_eq_iff)
    then show False by presburger
  qed
  have u: "\<not> usable_value example_environment example_table
       \<lparr>column_id = 0, predicate_condition = GreaterThan, value1 = Variant (Float64 (51 / 2)),
        value2 = None\<rparr> (Variant (Float64 (51 / 2)))"
    using fl by (simp add: usable_value_def example_environment_def example_table_def)
  have r: "\<exists>s. apply_to_plan_without_subqueries Debug example_environment
          [stored_table [column_predicate 1 0 GreaterThan (Float64 (51 / 2)) [root_node]]]
          initial_state = Inr s \<and>
        pruned_chunk_ids (stored_table_node_fields s 0) = [] \<and>
        table_statistics (stored_table_node_fields s 0) = None"
    using fl by (simp add: ex_defs rule_defs)
  show ?thesis
    using u r unusable_tuple_is_skipped [of example_environment example_table
       "\<lparr>column_id = 0, predicate_condition = GreaterThan, value1 = Variant (Float64 (51 / 2)),
        value2 = None\<rparr>" Debug 0 "{||}" initial_state]
    by simp
qed

text \<open>
  C7. When the chunk loop of a normalized predicate counts \<open>n > 0\<close> pruned rows, the node's
  statistics override becomes a new statistics object built from \<open>old\<close>, which is the
  node's current override when there is one and the table's statistics otherwise: the
  predicate's column is \<open>pruned\<close> with \<open>n\<close>, the condition and the predicate's own
  (uncast) values, every other column is \<open>scaled\<close> with \<open>1 - n / row_count old\<close>, and the
  row count is \<open>row_count old - n\<close>, all in the source's floating-point operations. The new
  object is stored in place of any earlier override, so the correction of the next
  predicate starts from it.
\<close>

theorem statistics_correction:
  assumes "value1 p = Variant v0" and "value2 p = map_option Variant w0"
    and "lossless_variant_cast env v0 (column_data_types table (column_id p)) = Some v"
    and "cast_value2 env (column_data_types table (column_id p)) (value2 p) = Some v2"
    and "scan_chunks b (pruned_chunk_ids (stored_table_node_fields s stn)) (column_id p)
           (predicate_condition p) v v2 (chunks table) 0 0 local = Inr (n, local')"
    and "0 < n"
    and "old = (case table_statistics (stored_table_node_fields s stn) of
                  Some t \<Rightarrow> t
                | None \<Rightarrow> base_table_statistics table)"
  shows "\<exists>new.
           evaluate_operator_predicate b env table stn p local s =
             Inr (local', set_table_statistics stn new s) \<and>
           table_statistics (stored_table_node_fields (set_table_statistics stn new s) stn) =
             Some new \<and>
           row_count new = float_minus env (row_count old) (float_of_nat env n) \<and>
           length (column_statistics new) = length (column_statistics old) \<and>
           (\<forall>j<length (column_statistics old).
              column_statistics new ! j =
                (if j = column_id p
                 then pruned env (column_statistics old ! j) n (predicate_condition p) v0 w0
                 else scaled env (column_statistics old ! j)
                        (float_minus env (float_of_nat env 1)
                           (float_divide env (float_of_nat env n) (row_count old)))))"
proof -
  obtain new where
    pts: "prune_table_statistics env old p n = Inr new"
    and props: "row_count new = float_minus env (row_count old) (float_of_nat env n)"
      "length (column_statistics new) = length (column_statistics old)"
      "\<forall>j<length (column_statistics old).
              column_statistics new ! j =
                (if j = column_id p
                 then pruned env (column_statistics old ! j) n (predicate_condition p) v0 w0
                 else scaled env (column_statistics old ! j)
                        (float_minus env (float_of_nat env 1)
                           (float_divide env (float_of_nat env n) (row_count old))))"
    using prune_table_statistics_scalar [OF assms(1,2), where env = env and old = old and n = n]
    by (elim exE conjE)
  have ev: "evaluate_operator_predicate b env table stn p local s =
             Inr (local', set_table_statistics stn new s)"
    using assms(1,3,4,5,6) pts
    by (simp add: evaluate_operator_predicate_def Let_def assms(7) [symmetric])
  have st: "table_statistics (stored_table_node_fields (set_table_statistics stn new s) stn) =
             Some new"
    by (simp add: set_table_statistics_def)
  show ?thesis
    by (rule exI [of _ new]) (use ev st props in simp)
qed

theorem statistics_correction_witness:
  "\<exists>new.
     evaluate_operator_predicate Debug example_environment example_table 0
       \<lparr>column_id = 0, predicate_condition = GreaterThan, value1 = Variant (Int32 25),
        value2 = None\<rparr> {||}
       (set_table_statistics 0
          \<lparr>column_statistics = [Scaled (Histogram 0) (1 / 2), Histogram 1], row_count = 25\<rparr>
          initial_state) =
       Inr ({|1, 0|},
            set_table_statistics 0 new
              (set_table_statistics 0
                 \<lparr>column_statistics = [Scaled (Histogram 0) (1 / 2), Histogram 1],
                  row_count = 25\<rparr>
                 initial_state)) \<and>
     row_count new = 5 \<and>
     length (column_statistics new) = 2 \<and>
     column_statistics new ! 0 =
       Pruned (Scaled (Histogram 0) (1 / 2)) 20 GreaterThan (Int32 25) None \<and>
     column_statistics new ! 1 = Scaled (Histogram 1) (1 / 5)"
proof -
  let ?p = "\<lparr>column_id = 0, predicate_condition = GreaterThan, value1 = Variant (Int32 25),
        value2 = None\<rparr>"
  let ?old = "\<lparr>column_statistics = [Scaled (Histogram 0) (1 / 2), Histogram 1],
               row_count = 25 :: real\<rparr>"
  let ?s = "set_table_statistics 0 ?old initial_state"
  have h1: "value1 ?p = Variant (Int32 25)" by simp
  have h2: "value2 ?p = map_option Variant None" by simp
  have h3: "lossless_variant_cast example_environment (Int32 25)
              (column_data_types example_table (column_id ?p)) = Some (Int32 25)"
    by (simp add: ex_defs)
  have h4: "cast_value2 example_environment (column_data_types example_table (column_id ?p))
              (value2 ?p) = Some None"
    by (simp add: cast_value2_def)
  have h5: "scan_chunks Debug (pruned_chunk_ids (stored_table_node_fields ?s 0)) (column_id ?p)
           (predicate_condition ?p) (Int32 25) None (chunks example_table) 0 0 {||} =
           Inr (20, {|1, 0|})"
    by (simp add: ex_defs rule_defs)
  have h6: "0 < (20 :: nat)" by simp
  have h7: "?old = (case table_statistics (stored_table_node_fields ?s 0) of
                  Some t \<Rightarrow> t
                | None \<Rightarrow> base_table_statistics example_table)"
    by (simp add: set_table_statistics_def)
  from statistics_correction [OF h1 h2 h3 h4 h5 h6 h7]
  obtain new where
    ev: "evaluate_operator_predicate Debug example_environment example_table 0 ?p {||} ?s =
       Inr ({|1, 0|}, set_table_statistics 0 new ?s)"
    and rc: "row_count new = float_minus example_environment (row_count ?old)
           (float_of_nat example_environment 20)"
    and len: "length (column_statistics new) = length (column_statistics ?old)"
    and n: "\<forall>j<length (column_statistics ?old).
              column_statistics new ! j =
                (if j = column_id ?p
                 then pruned example_environment (column_statistics ?old ! j) 20
                        (predicate_condition ?p) (Int32 25) None
                 else scaled example_environment (column_statistics ?old ! j)
                        (float_minus example_environment (float_of_nat example_environment 1)
                           (float_divide example_environment
                              (float_of_nat example_environment 20) (row_count ?old))))"
    by (elim exE conjE)
  have rc': "row_count new = 5"
    using rc by (simp add: example_environment_def)
  have len': "length (column_statistics new) = 2"
    using len by simp
  have n0: "column_statistics new ! 0 =
       Pruned (Scaled (Histogram 0) (1 / 2)) 20 GreaterThan (Int32 25) None"
    using n [rule_format, of 0] by (simp add: example_environment_def)
  have n1: "column_statistics new ! 1 = Scaled (Histogram 1) (1 / 5)"
    using n [rule_format, of 1] by (simp add: example_environment_def)
  show ?thesis
    by (rule exI [of _ new]) (simp only: ev rc' len' n0 n1 simp_thms)
qed

text \<open>
  C2. The statistics row count after pruning should fall short of the table's row count
  by the rows of the distinct excluded chunks. The check against the node's pruned chunk
  ids cannot see the chunks excluded earlier in the same application, since those ids are
  written only at the end of step (3). With one chain of two predicates that both exclude
  chunk 0 (10 of 30 rows), chunk 0 is the only pruned chunk, yet the row count of the
  override is 10 and not 20.
\<close>

theorem overlapping_exclusions_counted_twice:
  "row_count (base_table_statistics example_table) = 30 \<and>
   (\<exists>s. apply_to_plan_without_subqueries Debug example_environment
          [stored_table
             [column_predicate 1 0 GreaterThan (Int32 15)
                [column_predicate 2 1 GreaterThan (Int32 15) [root_node]]]]
          initial_state = Inr s \<and>
        pruned_chunk_ids (stored_table_node_fields s 0) = [0] \<and>
        map_option row_count (table_statistics (stored_table_node_fields s 0)) = Some 10)"
  by (simp add: ex_defs rule_defs)

text \<open>
  C3. A predicate node whose predicate the normaliser rejects should count as an empty
  exclusion set while the rest of the chain is still evaluated. The function returns the
  empty set for the whole chain instead: with the chain of a predicate excluding chunk 0
  followed by a rejected one, the result is empty although chunk 0 is memoized for the
  first node, and nothing is memoized for the rejected node; with the rejected node first,
  the second node is never evaluated; and the rule prunes nothing.
\<close>

theorem failed_normalization_empties_the_chain:
  "(\<exists>s. compute_exclude_list Debug example_environment example_table
          [column_predicate 1 0 GreaterThan (Int32 15) [unsupported_predicate 2 [root_node]],
           unsupported_predicate 2 [root_node]] 0 initial_state = Inr ({||}, s) \<and>
        excluded_chunk_ids_by_predicate_node s 1 = Some {|0|} \<and>
        excluded_chunk_ids_by_predicate_node s 2 = None) \<and>
   (\<exists>s. compute_exclude_list Debug example_environment example_table
          [unsupported_predicate 2 [column_predicate 1 0 GreaterThan (Int32 15) [root_node]],
           column_predicate 1 0 GreaterThan (Int32 15) [root_node]] 0 initial_state =
          Inr ({||}, s) \<and>
        excluded_chunk_ids_by_predicate_node s 1 = None \<and> scanned s = []) \<and>
   (\<exists>s. apply_to_plan_without_subqueries Debug example_environment
          [stored_table
             [column_predicate 1 0 GreaterThan (Int32 15)
                [unsupported_predicate 2 [root_node]]]]
          initial_state = Inr s \<and>
        pruned_chunk_ids (stored_table_node_fields s 0) = [])"
  by (simp add: ex_defs rule_defs)

text \<open>
  C10. The statistics override is written during the evaluation of the chains, before
  their exclusion sets are intersected. For a stored-table node with two consumers, one
  chain excluding only chunk 0 and the other only chunk 2, the intersection is empty and
  the pruned chunk ids stay empty, but the node ends with a statistics override of 10
  rows where the table has 30.
\<close>

theorem statistics_overridden_without_pruning:
  "row_count (base_table_statistics example_table) = 30 \<and>
   (\<exists>s. apply_to_plan_without_subqueries Debug example_environment
          [stored_table
             [column_predicate 1 0 GreaterThan (Int32 15) [root_node],
              column_predicate 2 0 LessThan (Int32 14) [root_node]]]
          initial_state = Inr s \<and>
        pruned_chunk_ids (stored_table_node_fields s 0) = [] \<and>
        map_option row_count (table_statistics (stored_table_node_fields s 0)) = Some 10)"
  by (simp add: ex_defs rule_defs)

text \<open>
  C6. The memo is a member of the rule, and no statement of the rule removes an entry or
  clears it. As amended: every entry that the memo holds when an application starts is
  still there, with the same set, when the application ends; the memo is therefore empty
  at the start of an application only if no earlier application of the same rule object
  stored an entry.
\<close>

theorem memo_survives_rule_application:
  assumes "apply_to_plan_without_subqueries b env leafs s = Inr s'"
    and "excluded_chunk_ids_by_predicate_node s k = Some L"
  shows "excluded_chunk_ids_by_predicate_node s' k = Some L"
proof -
  from assms(1) have "excluded_chunk_ids_by_predicate_node s \<subseteq>\<^sub>m
                      excluded_chunk_ids_by_predicate_node s'"
    unfolding apply_to_plan_without_subqueries_def Let_def
    by (rule prune_stored_table_nodes_memo [THEN conjunct1])
  with assms(2) show ?thesis
    by (auto simp: map_le_def dom_def)
qed

theorem memo_survives_rule_application_witness:
  "\<exists>s s'. apply_to_plan_without_subqueries Debug example_environment
            [stored_table [column_predicate 1 0 GreaterThan (Int32 15) [root_node]]] s = Inr s' \<and>
          excluded_chunk_ids_by_predicate_node s 7 = Some {|2|} \<and>
          excluded_chunk_ids_by_predicate_node s' 7 = Some {|2|}"
proof -
  let ?s = "initial_state\<lparr>excluded_chunk_ids_by_predicate_node := [7 \<mapsto> {|2|}]\<rparr>"
  have "\<exists>s'. apply_to_plan_without_subqueries Debug example_environment
            [stored_table [column_predicate 1 0 GreaterThan (Int32 15) [root_node]]] ?s = Inr s'"
    by (simp add: ex_defs rule_defs)
  then obtain s' where a: "apply_to_plan_without_subqueries Debug example_environment
            [stored_table [column_predicate 1 0 GreaterThan (Int32 15) [root_node]]] ?s = Inr s'" ..
  have m: "excluded_chunk_ids_by_predicate_node ?s 7 = Some {|2|}" by simp
  from memo_survives_rule_application [OF a m] a m show ?thesis by blast
qed

text \<open>
  The memo is not scoped to one application: after a first application on a plan with two
  chains (nothing is pruned), the entry of predicate node 1 is in the state the next
  application starts from. A second application, on a table without any pruning
  statistics, prunes chunk 0 from that entry alone; started from an empty memo it prunes
  nothing.
\<close>

theorem memo_carries_over:
  "(case apply_to_plan_without_subqueries Debug example_environment
           [stored_table
              [column_predicate 1 0 GreaterThan (Int32 15) [root_node],
               column_predicate 2 0 LessThan (Int32 14) [root_node]]]
           initial_state of
      Inl e \<Rightarrow> False
    | Inr s1 \<Rightarrow>
        excluded_chunk_ids_by_predicate_node s1 1 = Some {|0|} \<and>
        (case apply_to_plan_without_subqueries Debug environment_without_statistics
                [stored_table [column_predicate 1 0 GreaterThan (Int32 15) [root_node]]] s1 of
           Inl e \<Rightarrow> False
         | Inr s2 \<Rightarrow> pruned_chunk_ids (stored_table_node_fields s2 0) = [0])) \<and>
   (case apply_to_plan_without_subqueries Debug environment_without_statistics
           [stored_table [column_predicate 1 0 GreaterThan (Int32 15) [root_node]]]
           initial_state of
      Inl e \<Rightarrow> False
    | Inr s3 \<Rightarrow> pruned_chunk_ids (stored_table_node_fields s3 0) = [])"
  by (simp add: ex_defs rule_defs)

text \<open>
  C5. When the rule computes a non-empty final set for a stored-table node whose pruned
  chunk ids are already non-empty, the assertion before \<open>set_pruned_chunk_ids\<close> fails: the
  node's step, and with it the loop over the nodes, ends with \<open>Abort\<close> in a debug build and
  with \<open>FatalError\<close> in a production build, and nothing is written. (What a failed
  \<open>DebugAssert\<close> does in either build is taken from the specification.) Applying the rule
  a second time to a plan that the first application pruned is such a case.
\<close>

theorem already_pruned_scan_violates_precondition:
  assumes "compute_chains b env (get_table env (table_name n)) (node_id (stn_node n))
             predicate_chains [] s = Inr (sets, s1)"
    and "intersect_chunk_ids sets \<noteq> {||}"
    and "pruned_chunk_ids (stored_table_node_fields s (node_id (stn_node n))) \<noteq> []"
  shows "prune_stored_table_node b env n predicate_chains s =
           Inl (case b of
                  Debug \<Rightarrow> Abort ''Did not expect a StoredTableNode with an already existing set of pruned chunk ids.''
                | Production \<Rightarrow> FatalError ''Did not expect a StoredTableNode with an already existing set of pruned chunk ids.'') \<and>
         prune_stored_table_nodes b env ((n, predicate_chains) # rest) s =
           Inl (case b of
                  Debug \<Rightarrow> Abort ''Did not expect a StoredTableNode with an already existing set of pruned chunk ids.''
                | Production \<Rightarrow> FatalError ''Did not expect a StoredTableNode with an already existing set of pruned chunk ids.'')"
proof -
  have ne: "predicate_chains \<noteq> []"
    using assms(1,2) by (auto simp: intersect_chunk_ids_def)
  have ids: "pruned_chunk_ids (stored_table_node_fields s1 (node_id (stn_node n))) \<noteq> []"
    using compute_chains_pruned_ids [OF assms(1)] assms(3) by simp
  have one: "prune_stored_table_node b env n predicate_chains s =
           Inl (case b of
                  Debug \<Rightarrow> Abort ''Did not expect a StoredTableNode with an already existing set of pruned chunk ids.''
                | Production \<Rightarrow> FatalError ''Did not expect a StoredTableNode with an already existing set of pruned chunk ids.'')"
    using ne ids assms(1,2)
    by (simp add: prune_stored_table_node_def Let_def DebugAssert_def)
  then show ?thesis by simp
qed

theorem already_pruned_scan_violates_precondition_witness:
  "prune_stored_table_node Production example_environment (stored_table [])
     [[column_predicate 1 0 GreaterThan (Int32 25) [root_node]]]
     (set_pruned_chunk_ids 0 [2] initial_state) =
     Inl (FatalError ''Did not expect a StoredTableNode with an already existing set of pruned chunk ids.'') \<and>
   (case apply_to_plan_without_subqueries Debug example_environment
           [stored_table [column_predicate 1 0 GreaterThan (Int32 25) [root_node]]]
           initial_state of
      Inl e \<Rightarrow> False
    | Inr s1 \<Rightarrow>
        pruned_chunk_ids (stored_table_node_fields s1 0) = [0, 1] \<and>
        apply_to_plan_without_subqueries Debug example_environment
           [stored_table [column_predicate 1 0 GreaterThan (Int32 25) [root_node]]] s1 =
        Inl (Abort ''Did not expect a StoredTableNode with an already existing set of pruned chunk ids.''))"
proof -
  let ?s = "set_pruned_chunk_ids 0 [2] initial_state"
  have "\<exists>s1. compute_chains Production example_environment
             (get_table example_environment (table_name (stored_table [])))
             (node_id (stn_node (stored_table [])))
             [[column_predicate 1 0 GreaterThan (Int32 25) [root_node]]] [] ?s =
           Inr ([{|1, 0|}], s1)"
    by (simp add: ex_defs rule_defs)
  then obtain s1 where h1: "compute_chains Production example_environment
             (get_table example_environment (table_name (stored_table [])))
             (node_id (stn_node (stored_table [])))
             [[column_predicate 1 0 GreaterThan (Int32 25) [root_node]]] [] ?s =
           Inr ([{|1, 0|}], s1)" ..
  have h2: "intersect_chunk_ids [{|1, 0|}] \<noteq> ({||} :: nat fset)"
    by (simp add: intersect_chunk_ids_def)
  have h3: "pruned_chunk_ids (stored_table_node_fields ?s (node_id (stn_node (stored_table []))))
            \<noteq> []"
    by (simp add: set_pruned_chunk_ids_def stored_table_def)
  have twice: "(case apply_to_plan_without_subqueries Debug example_environment
           [stored_table [column_predicate 1 0 GreaterThan (Int32 25) [root_node]]]
           initial_state of
      Inl e \<Rightarrow> False
    | Inr s1 \<Rightarrow>
        pruned_chunk_ids (stored_table_node_fields s1 0) = [0, 1] \<and>
        apply_to_plan_without_subqueries Debug example_environment
           [stored_table [column_predicate 1 0 GreaterThan (Int32 25) [root_node]]] s1 =
        Inl (Abort ''Did not expect a StoredTableNode with an already existing set of pruned chunk ids.''))"
    by (simp add: ex_defs rule_defs)
  from already_pruned_scan_violates_precondition [OF h1 h2 h3, of "[]"] twice
  show ?thesis by simp
qed

text \<open>
  C4. Once the exclusion set \<open>L\<close> of a predicate node has been computed (its predicate
  was normalized), every later evaluation of that node, in any state whose memo extends
  the one the first evaluation left (the memo only grows, see
  \<open>compute_chains_memo\<close> and \<open>prune_stored_table_nodes_memo\<close>), for any chain, table or
  stored-table node, returns \<open>L\<close> and leaves the state as it is: nothing is scanned and no
  statistics are corrected. And in one application of the rule, started with an empty
  trace, no predicate node is scanned twice.
\<close>

theorem predicate_node_evaluated_once:
  "(compute_exclude_list b env table [p] stn s = Inr (L, s1) \<and>
    from_expression env (node_predicate p) \<noteq> None \<and>
    excluded_chunk_ids_by_predicate_node s1 \<subseteq>\<^sub>m excluded_chunk_ids_by_predicate_node s2 \<longrightarrow>
      compute_exclude_list b' env' table' [p] stn' s2 = Inr (L, s2)) \<and>
   (scanned s = [] \<and> apply_to_plan_without_subqueries b env leafs s = Inr s' \<longrightarrow>
      distinct (scanned s'))"
proof (intro conjI impI)
  assume a: "compute_exclude_list b env table [p] stn s = Inr (L, s1) \<and>
    from_expression env (node_predicate p) \<noteq> None \<and>
    excluded_chunk_ids_by_predicate_node s1 \<subseteq>\<^sub>m excluded_chunk_ids_by_predicate_node s2"
  then have first: "compute_exclude_loop b env table stn [p] {||} s = Inr (L, s1)"
    and norm: "from_expression env (node_predicate p) \<noteq> None"
    and le: "excluded_chunk_ids_by_predicate_node s1 \<subseteq>\<^sub>m excluded_chunk_ids_by_predicate_node s2"
    by (simp_all add: compute_exclude_list_def)
  have "excluded_chunk_ids_by_predicate_node s1 (node_id p) = Some L"
  proof (cases "excluded_chunk_ids_by_predicate_node s (node_id p)")
    case (Some local)
    with first show ?thesis by auto
  next
    case None
    from norm obtain ops where ops: "from_expression env (node_predicate p) = Some ops"
      by auto
    from first None ops obtain s0 where
      ev: "evaluate_operator_predicates b env table stn ops {||}
             (s\<lparr>scanned := scanned s @ [node_id p]\<rparr>) = Inr (L, s0)"
      and s1: "s1 = s0\<lparr>excluded_chunk_ids_by_predicate_node :=
                      emplace (excluded_chunk_ids_by_predicate_node s0) (node_id p) L\<rparr>"
      by (auto split: sum.splits prod.splits)
    from evaluate_operator_predicates_memo [OF ev] None
    have "excluded_chunk_ids_by_predicate_node s0 (node_id p) = None" by simp
    with s1 show ?thesis by (simp add: emplace_def)
  qed
  with le have "excluded_chunk_ids_by_predicate_node s2 (node_id p) = Some L"
    by (auto simp: map_le_def dom_def)
  then show "compute_exclude_list b' env' table' [p] stn' s2 = Inr (L, s2)"
    by (simp add: compute_exclude_list_def)
next
  assume a: "scanned s = [] \<and> apply_to_plan_without_subqueries b env leafs s = Inr s'"
  then have "scanned_once s" by (simp add: scanned_once_def)
  moreover from a have "prune_stored_table_nodes b env
      (map (\<lambda>(stored_table_node, cs).
                   (stored_table_node,
                    find_predicate_chains_recursively (node_id (stn_node stored_table_node))
                      (stn_node stored_table_node) []))
              (foldl emplace_node [] leafs)) s = Inr s'"
    by (simp add: apply_to_plan_without_subqueries_def Let_def)
  ultimately have "scanned_once s'"
    using prune_stored_table_nodes_memo by blast
  then show "distinct (scanned s')" by (simp add: scanned_once_def)
qed

theorem predicate_node_evaluated_once_witness:
  "\<exists>s1 s'.
     compute_exclude_list Debug example_environment example_table
       [column_predicate 1 0 GreaterThan (Int32 15) [root_node]] 0 initial_state =
       Inr ({|0|}, s1) \<and>
     compute_exclude_list Debug environment_without_statistics unanalysed_table
       [column_predicate 1 0 GreaterThan (Int32 15) [root_node]] 0 s1 = Inr ({|0|}, s1) \<and>
     apply_to_plan_without_subqueries Debug example_environment
       [stored_table
          [column_predicate 1 0 GreaterThan (Int32 15)
             [column_predicate 2 0 GreaterThan (Int32 25) [root_node],
              column_predicate 3 1 GreaterThan (Int32 25) [root_node]]]]
       initial_state = Inr s' \<and>
     scanned s' = [1, 2, 3] \<and> distinct (scanned s')"
proof -
  let ?p = "column_predicate 1 0 GreaterThan (Int32 15) [root_node]"
  let ?leafs = "[stored_table
          [column_predicate 1 0 GreaterThan (Int32 15)
             [column_predicate 2 0 GreaterThan (Int32 25) [root_node],
              column_predicate 3 1 GreaterThan (Int32 25) [root_node]]]]"
  have "\<exists>s1. compute_exclude_list Debug example_environment example_table [?p] 0 initial_state =
       Inr ({|0|}, s1)"
    by (simp add: ex_defs rule_defs)
  then obtain s1 where c: "compute_exclude_list Debug example_environment example_table [?p] 0
       initial_state = Inr ({|0|}, s1)" ..
  have n: "from_expression example_environment (node_predicate ?p) \<noteq> None"
    by (simp add: ex_defs)
  have "\<exists>s'. apply_to_plan_without_subqueries Debug example_environment ?leafs initial_state =
          Inr s' \<and> scanned s' = [1, 2, 3]"
    by (simp add: ex_defs rule_defs)
  then obtain s' where a: "apply_to_plan_without_subqueries Debug example_environment ?leafs
          initial_state = Inr s'" and t: "scanned s' = [1, 2, 3]"
    by (elim exE conjE)
  have i: "scanned initial_state = []" by (simp add: initial_state_def)
  from predicate_node_evaluated_once [of Debug example_environment example_table ?p 0
      initial_state "{|0|}" s1 s1 Debug environment_without_statistics unanalysed_table 0
      ?leafs s']
  have "compute_exclude_list Debug environment_without_statistics unanalysed_table [?p] 0 s1 =
          Inr ({|0|}, s1)" and "distinct (scanned s')"
    using c n a i by simp_all
  with c a t show ?thesis
    by (intro exI [of _ s1] exI [of _ s']) simp
qed

text \<open>
  C8. The walk from a node with the chain accumulated so far. At a node that continues
  chains the chain is extended by the node when it is a predicate node all of whose
  columns belong to the stored-table node, and is left as it is otherwise, so a predicate
  on other columns is passed without ending the chain. With one consumer the walk goes on
  at the consumer with that chain (in an acyclic plan, where the set of visited nodes
  never stops it); with several consumers the result is the concatenation, in order, of
  the walks from each consumer, each started with that chain, and nothing else. At any
  other node the result is the one chain accumulated so far.
\<close>

theorem upward_walk_collects_chains:
  "(continues_chain (node_type node) \<and> outputs node = [consumer] \<and> acyclic_above node \<longrightarrow>
      find_predicate_chains_recursively stn node chain =
        find_predicate_chains_recursively stn consumer (extended_chain stn node chain)) \<and>
   (continues_chain (node_type node) \<and> length (outputs node) > 1 \<longrightarrow>
      find_predicate_chains_recursively stn node chain =
        concat (map (\<lambda>output_node.
                       find_predicate_chains_recursively stn output_node
                         (extended_chain stn node chain))
                  (outputs node))) \<and>
   (\<not> continues_chain (node_type node) \<longrightarrow>
      find_predicate_chains_recursively stn node chain = [chain]) \<and>
   (node_type node = Predicate \<and> predicate_matches_table stn (node_predicate node) \<longrightarrow>
      extended_chain stn node chain = chain @ [node]) \<and>
   (node_type node = Predicate \<and> \<not> predicate_matches_table stn (node_predicate node) \<longrightarrow>
      extended_chain stn node chain = chain \<and> continues_chain (node_type node))"
proof (intro conjI impI)
  assume a: "continues_chain (node_type node) \<and> outputs node = [consumer] \<and> acyclic_above node"
  obtain ident t e consumers where n: "node = LQPNode ident t e consumers" by (cases node)
  with a have one: "consumers = [consumer]" and c: "continues_chain t" by simp_all
  from a n one have ac: "acyclic_above consumer" and notin: "ident \<notin> set (ids_above consumer)"
    by simp_all
  then have "set (ids_above consumer) \<inter> {ident} = {}" by auto
  from visit_lqp_upwards_fresh [OF ac this, of stn "extended_chain stn node chain" "[]"]
  have "visit_lqp_upwards stn [consumer] {ident} (extended_chain stn node chain) [] =
        visit_lqp_upwards stn [consumer] {} (extended_chain stn node chain) []"
    by simp
  moreover have "visit_lqp_upwards stn [node] {} chain [] =
        visit_lqp_upwards stn [consumer] {ident} (extended_chain stn node chain) []"
    using n one c by (subst visit_lqp_upwards_single) simp
  ultimately show "find_predicate_chains_recursively stn node chain =
        find_predicate_chains_recursively stn consumer (extended_chain stn node chain)"
    by (simp add: find_predicate_chains_recursively_def)
next
  assume "continues_chain (node_type node) \<and> length (outputs node) > 1"
  then show "find_predicate_chains_recursively stn node chain =
        concat (map (\<lambda>output_node.
                       find_predicate_chains_recursively stn output_node
                         (extended_chain stn node chain))
                  (outputs node))"
    unfolding find_predicate_chains_recursively_def
    by (subst visit_lqp_upwards_single) simp
next
  assume "\<not> continues_chain (node_type node)"
  then show "find_predicate_chains_recursively stn node chain = [chain]"
    unfolding find_predicate_chains_recursively_def
    by (subst visit_lqp_upwards_single) simp
next
  assume "node_type node = Predicate \<and> predicate_matches_table stn (node_predicate node)"
  then show "extended_chain stn node chain = chain @ [node]"
    by (simp add: extended_chain_def)
next
  assume "node_type node = Predicate \<and> \<not> predicate_matches_table stn (node_predicate node)"
  then show "extended_chain stn node chain = chain"
    by (simp add: extended_chain_def)
next
  assume "node_type node = Predicate \<and> \<not> predicate_matches_table stn (node_predicate node)"
  then show "continues_chain (node_type node)"
    by (simp add: continues_chain_def)
qed


theorem upward_walk_collects_chains_witness:
  "acyclic_above branching_plan \<and>
   find_predicate_chains_recursively 0 branching_plan [] =
     find_predicate_chains_recursively 0
       (foreign_predicate 2
          [LQPNode 3 Join (Expression [])
             [column_predicate 4 0 GreaterThan (Int32 15) [root_node],
              LQPNode 5 Validate (Expression []) [root_node]]])
       [branching_plan] \<and>
   find_predicate_chains_recursively 0 branching_plan [] =
     [[branching_plan, column_predicate 4 0 GreaterThan (Int32 15) [root_node]],
      [branching_plan]]"
proof -
  let ?p2 = "foreign_predicate 2
          [LQPNode 3 Join (Expression [])
             [column_predicate 4 0 GreaterThan (Int32 15) [root_node],
              LQPNode 5 Validate (Expression []) [root_node]]]"
  have ac: "acyclic_above branching_plan"
    by (simp add: branching_plan_def foreign_predicate_def column_predicate_def root_node_def)
  have h: "continues_chain (node_type branching_plan) \<and> outputs branching_plan = [?p2] \<and>
           acyclic_above branching_plan"
    using ac by (simp add: branching_plan_def column_predicate_def continues_chain_def)
  have ext: "extended_chain 0 branching_plan [] = [branching_plan]"
    by (simp add: extended_chain_def branching_plan_def column_predicate_def)
  have ev: "find_predicate_chains_recursively 0 branching_plan [] =
     [[branching_plan, column_predicate 4 0 GreaterThan (Int32 15) [root_node]],
      [branching_plan]]"
    by (simp add: ex_defs rule_defs)
  from upward_walk_collects_chains [of branching_plan ?p2 0 "[]"] h ext
  have "find_predicate_chains_recursively 0 branching_plan [] =
        find_predicate_chains_recursively 0 ?p2 [branching_plan]"
    by simp
  with ac ev show ?thesis by simp
qed

end
